theory Spec2Isabelle
  imports Main "HOL-Library.Word"
begin

section \<open>Value trees and the key annotator\<close>

text \<open>
  The values handed to the structured writer are finite trees of Python values: scalars,
  lists and dictionaries with string keys. A dictionary is an association list in
  insertion order. Doubles and dates of the decoded stream are not modelled; nothing
  below depends on them. Strings are carried as their UTF-8 bytes.
\<close>

datatype pyval = PNone | PBool bool | PInt int | PStr string
  | PList "pyval list" | PDict "(string \<times> pyval) list"

text \<open>
  \<^verbatim>\<open>d[k] = v\<close> on an insertion-ordered dictionary: an existing key keeps its position
  and takes the new value, a new key is added at the end.
\<close>

fun dict_set :: "(string \<times> 'v) list \<Rightarrow> string \<Rightarrow> 'v \<Rightarrow> (string \<times> 'v) list" where
  "dict_set [] k v = [(k, v)]"
| "dict_set ((k', v') # r) k v = (if k' = k then (k', v) # r else (k', v') # dict_set r k v)"

text \<open>
  \<^verbatim>\<open>add_at_prefix_to_keys\<close> (lines 75-98): the loop over \<^verbatim>\<open>data.items()\<close> is the left
  fold that assigns into \<^verbatim>\<open>result\<close>, branch for branch.
\<close>

fun add_at_prefix_to_keys :: "pyval \<Rightarrow> pyval" where
  "add_at_prefix_to_keys (PDict kvs) =
     PDict (foldl (\<lambda>result (key, value).
        (case value of
           PList xs \<Rightarrow> dict_set result key (PList (map add_at_prefix_to_keys xs))
         | PDict d \<Rightarrow> dict_set result (CHR ''@'' # key) (add_at_prefix_to_keys value)
         | _ \<Rightarrow> dict_set result (CHR ''@'' # key) value)) [] kvs)"
| "add_at_prefix_to_keys (PList xs) = PList (map add_at_prefix_to_keys xs)"
| "add_at_prefix_to_keys v = v"

fun is_list :: "pyval \<Rightarrow> bool" where
  "is_list (PList xs) = True"
| "is_list v = False"

fun is_dict :: "pyval \<Rightarrow> bool" where
  "is_dict (PDict kvs) = True"
| "is_dict v = False"

text \<open>
  The key rule in the words of the specification: an entry whose value is a list keeps
  its bare key, any other entry gains one leading attribute marker; the value is
  annotated recursively in both cases.
\<close>

definition annotated_entry :: "string \<times> pyval \<Rightarrow> string \<times> pyval" where
  "annotated_entry e =
     (if is_list (snd e) then (fst e, add_at_prefix_to_keys (snd e))
      else (CHR ''@'' # fst e, add_at_prefix_to_keys (snd e)))"

section \<open>Object graphs\<close>

text \<open>
  The record handlers mutate the objects they are given, and what they return depends on
  which references of the decoded graph name the same object. The decoded graph is
  therefore a store: a reference is an index into a list of objects, each a dictionary
  or a list whose entries are scalars or references. Allocation appends to the store.
\<close>

datatype val = VNone | VBool bool | VInt int | VStr string | VRef nat

datatype obj = ODict "(string \<times> val) list" | OList "val list"

type_synonym heap = "obj list"

text \<open>
  The exceptions of the source are values. \<open>ExternalError\<close> stands for any exception of
  a library or of the network; \<open>DanglingRef\<close> is returned for a reference outside the
  store, which no Python state contains, and only makes the operations total.
\<close>

datatype error = KeyError | TypeError | AttributeError | FileNotFoundError
  | ExternalError | DanglingRef

definition heap_get :: "heap \<Rightarrow> nat \<Rightarrow> obj option" where
  "heap_get h a = (if a < length h then Some (h ! a) else None)"

text \<open>\<^verbatim>\<open>v[k]\<close> with a string \<open>k\<close>: only a dictionary can be subscripted by a string.\<close>

fun py_getitem :: "heap \<Rightarrow> val \<Rightarrow> string \<Rightarrow> error + val" where
  "py_getitem h (VRef a) k =
     (case heap_get h a of
        None \<Rightarrow> Inl DanglingRef
      | Some (ODict kvs) \<Rightarrow> (case map_of kvs k of None \<Rightarrow> Inl KeyError | Some x \<Rightarrow> Inr x)
      | Some (OList vs) \<Rightarrow> Inl TypeError)"
| "py_getitem h v k = Inl TypeError"

text \<open>\<^verbatim>\<open>v[k] = x\<close> with a string \<open>k\<close>.\<close>

fun py_setitem :: "heap \<Rightarrow> val \<Rightarrow> string \<Rightarrow> val \<Rightarrow> error + heap" where
  "py_setitem h (VRef a) k x =
     (case heap_get h a of
        None \<Rightarrow> Inl DanglingRef
      | Some (ODict kvs) \<Rightarrow> Inr (h[a := ODict (dict_set kvs k x)])
      | Some (OList vs) \<Rightarrow> Inl TypeError)"
| "py_setitem h v k x = Inl TypeError"

text \<open>\<^verbatim>\<open>v.append(x)\<close>: only a list has the method.\<close>

fun py_append :: "heap \<Rightarrow> val \<Rightarrow> val \<Rightarrow> error + heap" where
  "py_append h (VRef a) x =
     (case heap_get h a of
        None \<Rightarrow> Inl DanglingRef
      | Some (OList vs) \<Rightarrow> Inr (h[a := OList (vs @ [x])])
      | Some (ODict kvs) \<Rightarrow> Inl AttributeError)"
| "py_append h v x = Inl AttributeError"

text \<open>
  \<^verbatim>\<open>v.pop(k)\<close> with a string \<open>k\<close> and no default: a dictionary without the key raises
  KeyError, a list rejects the string index, a scalar has no such method.
\<close>

fun py_pop :: "heap \<Rightarrow> val \<Rightarrow> string \<Rightarrow> error + heap" where
  "py_pop h (VRef a) k =
     (case heap_get h a of
        None \<Rightarrow> Inl DanglingRef
      | Some (ODict kvs) \<Rightarrow>
          (if k \<in> fst ` set kvs then Inr (h[a := ODict (filter (\<lambda>e. fst e \<noteq> k) kvs)])
           else Inl KeyError)
      | Some (OList vs) \<Rightarrow> Inl TypeError)"
| "py_pop h v k = Inl AttributeError"

text \<open>
  The elements a \<^verbatim>\<open>for\<close> loop sees: the elements of a list, the keys of a
  dictionary, the characters of a string; other scalars are not iterable.
\<close>

fun py_iter :: "heap \<Rightarrow> val \<Rightarrow> error + val list" where
  "py_iter h (VRef a) =
     (case heap_get h a of
        None \<Rightarrow> Inl DanglingRef
      | Some (OList vs) \<Rightarrow> Inr vs
      | Some (ODict kvs) \<Rightarrow> Inr (map (\<lambda>e. VStr (fst e)) kvs))"
| "py_iter h (VStr s) = Inr (map (\<lambda>c. VStr [c]) s)"
| "py_iter h v = Inl TypeError"

text \<open>
  The tree a graph unfolds to from a value, as every reader of the graph (the key
  annotator, the writer) sees it. The first argument bounds the depth: a cyclic graph
  unfolds to no tree, and \<open>None\<close> says that the traversal did not return within the bound.
\<close>

fun load :: "nat \<Rightarrow> heap \<Rightarrow> val \<Rightarrow> pyval option" where
  "load 0 h v = None"
| "load (Suc n) h VNone = Some PNone"
| "load (Suc n) h (VBool b) = Some (PBool b)"
| "load (Suc n) h (VInt i) = Some (PInt i)"
| "load (Suc n) h (VStr s) = Some (PStr s)"
| "load (Suc n) h (VRef a) =
     (case heap_get h a of
        None \<Rightarrow> None
      | Some (OList vs) \<Rightarrow> map_option PList (those (map (load n h) vs))
      | Some (ODict kvs) \<Rightarrow>
          map_option PDict (those (map (\<lambda>e. map_option (Pair (fst e)) (load n h (snd e))) kvs)))"

definition load_all :: "nat \<Rightarrow> heap \<Rightarrow> val list \<Rightarrow> pyval list option" where
  "load_all n h vs = those (map (load n h) vs)"

section \<open>Record handlers\<close>

text \<open>
  Equality of dictionary keys: \<^verbatim>\<open>True == 1\<close> and \<^verbatim>\<open>False == 0\<close> hash alike. The local
  dictionary \<^verbatim>\<open>result\<close> of the grouping handler is an association list from category
  id to category object; a list or a dictionary as key is unhashable.
\<close>

fun key_eq :: "val \<Rightarrow> val \<Rightarrow> bool" where
  "key_eq (VBool b) (VInt i) = (i = (if b then 1 else 0))"
| "key_eq (VInt i) (VBool b) = (i = (if b then 1 else 0))"
| "key_eq x y = (x = y)"

fun result_contains :: "(val \<times> val) list \<Rightarrow> val \<Rightarrow> error + bool" where
  "result_contains result (VRef a) = Inl TypeError"
| "result_contains result k = Inr (list_ex (\<lambda>e. key_eq (fst e) k) result)"

text \<open>
  One pass through the body of the loop of \<^verbatim>\<open>handle_item_xml_info\<close> (lines 42-50). The
  store is returned with an exception too: what was assigned before it stays assigned.
\<close>

fun item_step :: "heap \<Rightarrow> (val \<times> val) list \<Rightarrow> val \<Rightarrow> heap \<times> (error + (val \<times> val) list)" where
  "item_step h result obj =
     (case py_getitem h obj ''catObj'' of
        Inl e \<Rightarrow> (h, Inl e)
      | Inr cat_obj \<Rightarrow>
     (case py_getitem h cat_obj ''ID'' of
        Inl e \<Rightarrow> (h, Inl e)
      | Inr cat_id \<Rightarrow>
     (case result_contains result cat_id of
        Inl e \<Rightarrow> (h, Inl e)
      | Inr present \<Rightarrow>
     (case (if present then Inr (h, result)
            else (case py_setitem (h @ [OList []]) cat_obj ''item'' (VRef (length h)) of
                    Inl e \<Rightarrow> Inl (h @ [OList []], e)
                  | Inr h1 \<Rightarrow> Inr (h1, result @ [(cat_id, cat_obj)]))) of
        Inl (h1, e) \<Rightarrow> (h1, Inl e)
      | Inr (h1, result1) \<Rightarrow>
     (case py_getitem h1 obj ''itemObj'' of
        Inl e \<Rightarrow> (h1, Inl e)
      | Inr item \<Rightarrow>
     (case py_setitem h1 item ''CatID'' cat_id of
        Inl e \<Rightarrow> (h1, Inl e)
      | Inr h2 \<Rightarrow>
     (case py_getitem h2 cat_obj ''item'' of
        Inl e \<Rightarrow> (h2, Inl e)
      | Inr items \<Rightarrow>
     (case py_append h2 items item of
        Inl e \<Rightarrow> (h2, Inl e)
      | Inr h3 \<Rightarrow> (h3, Inr result1)))))))))"

text \<open>
  The loop over the list at address \<open>d\<close>. A list iterator reads the live list by index,
  and the body may append to that very list, so the loop need not end: the first
  argument bounds the number of passes, and \<open>None\<close> says the bound was reached.
\<close>

fun item_loop :: "nat \<Rightarrow> heap \<Rightarrow> nat \<Rightarrow> nat \<Rightarrow> (val \<times> val) list
    \<Rightarrow> (heap \<times> (error + (val \<times> val) list)) option" where
  "item_loop 0 h d i result = None"
| "item_loop (Suc n) h d i result =
     (case heap_get h d of
        Some (OList vs) \<Rightarrow>
          (if i < length vs then
             (case item_step h result (vs ! i) of
                (h1, Inl e) \<Rightarrow> Some (h1, Inl e)
              | (h1, Inr result1) \<Rightarrow> item_loop n h1 d (Suc i) result1)
           else Some (h, Inr result))
      | _ \<Rightarrow> Some (h, Inl DanglingRef))"

text \<open>\<^verbatim>\<open>{"root": add_at_prefix_to_keys({k: t})}\<close>, the return of all three handlers.\<close>

definition wrap_root :: "string \<Rightarrow> pyval \<Rightarrow> pyval" where
  "wrap_root k t = PDict [(''root'', add_at_prefix_to_keys (PDict [(k, t)]))]"

definition item_finish :: "nat \<Rightarrow> heap \<Rightarrow> (val \<times> val) list \<Rightarrow> (heap \<times> (error + pyval)) option" where
  "item_finish n h result =
     (case load_all n h (map snd result) of
        None \<Rightarrow> None
      | Some ts \<Rightarrow> Some (h, Inr (wrap_root ''items'' (PList ts))))"

fun is_list_ref :: "heap \<Rightarrow> val \<Rightarrow> nat option" where
  "is_list_ref h (VRef d) = (case heap_get h d of Some (OList vs) \<Rightarrow> Some d | _ \<Rightarrow> None)"
| "is_list_ref h v = None"

text \<open>
  \<^verbatim>\<open>handle_item_xml_info\<close> (lines 39-52). When \<open>data\<close> is not a list, the loop sees
  strings (keys or characters), and subscripting the first of them by \<^verbatim>\<open>"catObj"\<close>
  raises TypeError.
\<close>

definition handle_item_xml_info :: "nat \<Rightarrow> heap \<Rightarrow> val \<Rightarrow> (heap \<times> (error + pyval)) option" where
  "handle_item_xml_info n h data =
     (case is_list_ref h data of
        Some d \<Rightarrow>
          (case item_loop n h d 0 [] of
             None \<Rightarrow> None
           | Some (h1, Inl e) \<Rightarrow> Some (h1, Inl e)
           | Some (h1, Inr result) \<Rightarrow> item_finish n h1 result)
      | None \<Rightarrow>
          (case py_iter h data of
             Inl e \<Rightarrow> Some (h, Inl e)
           | Inr [] \<Rightarrow> item_finish n h []
           | Inr (obj # rest) \<Rightarrow> Some (h, Inl TypeError)))"

text \<open>
  The comprehension \<^verbatim>\<open>[_delete_class(obj) for obj in data]\<close> of
  \<^verbatim>\<open>handle_gold_product_xml_info\<close> (lines 55-60): every element is popped in turn and
  the same object is returned.
\<close>

fun delete_class_all :: "heap \<Rightarrow> val list \<Rightarrow> heap \<times> (error + val list)" where
  "delete_class_all h [] = (h, Inr [])"
| "delete_class_all h (obj # rest) =
     (case py_pop h obj ''__class__'' of
        Inl e \<Rightarrow> (h, Inl e)
      | Inr h1 \<Rightarrow>
          (case delete_class_all h1 rest of
             (h2, Inl e) \<Rightarrow> (h2, Inl e)
           | (h2, Inr objs) \<Rightarrow> (h2, Inr (obj # objs))))"

definition handle_gold_product_xml_info :: "nat \<Rightarrow> heap \<Rightarrow> val \<Rightarrow> (heap \<times> (error + pyval)) option" where
  "handle_gold_product_xml_info n h data =
     (case py_iter h data of
        Inl e \<Rightarrow> Some (h, Inl e)
      | Inr vs \<Rightarrow>
          (case delete_class_all h vs of
             (h1, Inl e) \<Rightarrow> Some (h1, Inl e)
           | (h1, Inr objs) \<Rightarrow>
               (case load_all n h1 objs of
                  None \<Rightarrow> None
                | Some ts \<Rightarrow> Some (h1, Inr (wrap_root ''item'' (PList ts))))))"

text \<open>\<^verbatim>\<open>handle_skill_xml_info\<close> (lines 63-64) only reads its argument.\<close>

definition handle_skill_xml_info :: "nat \<Rightarrow> heap \<Rightarrow> val \<Rightarrow> (heap \<times> (error + pyval)) option" where
  "handle_skill_xml_info n h data =
     (case load n h data of
        None \<Rightarrow> None
      | Some t \<Rightarrow> Some (h, Inr (wrap_root ''item'' t)))"


section \<open>Extraction of the Flash configuration\<close>

type_synonym byte = "8 word"

text \<open>
  The collaborators of the pipeline are not part of the source file: the zlib library,
  the container scanner and the object decoder of \<^verbatim>\<open>_swf_handle\<close>, the writer
  \<^verbatim>\<open>xmltodict.unparse\<close>, the regular-expression rewrite of a segment name and the HTTP
  download. They are parameters, each returning an exception as a value.
\<close>

record 's externals =
  zlib_decompress :: "byte list \<Rightarrow> error + byte list"
  extract_swf_data :: "byte list \<Rightarrow> error + 's"
  extract_binary_data :: "'s \<Rightarrow> error + (string \<times> byte list) list"
  read_object :: "byte list \<Rightarrow> error + heap \<times> val"
  unparse :: "pyval \<Rightarrow> error + string"
  file_name :: "string \<Rightarrow> string"
  http_get :: "string \<Rightarrow> error + byte list"


text \<open>\<^verbatim>\<open>Flash.extract_configs_from_swf\<close> (lines 145-148); \<^verbatim>\<open>swf[7:]\<close> is \<open>drop 7\<close>.\<close>

definition extract_configs_from_swf ::
    "'s externals \<Rightarrow> byte list \<Rightarrow> error + (string \<times> byte list) list" where
  "extract_configs_from_swf E swf =
     (case zlib_decompress E (drop 7 swf) of
        Inl e \<Rightarrow> Inl e
      | Inr decompressed \<Rightarrow>
          (case extract_swf_data E decompressed of
             Inl e \<Rightarrow> Inl e
           | Inr swf_data \<Rightarrow> extract_binary_data E swf_data))"







section \<open>The update run\<close>

text \<open>
  A platform is its two abstract methods: \<open>remote_version P k\<close> is what the \<open>k\<close>-th call
  of \<^verbatim>\<open>get_remote_version\<close> returns (the remote side may change between calls), and
  \<open>get_configs P\<close> acts on the files of the work directory other than the version file
  (\<open>None\<close>: it does not return). The state of a platform is the content of its version
  file, if the file exists, those other files, and the number of version requests made.
  A version is a Python \<^verbatim>\<open>str\<close>, held as the list of its Unicode code points.
\<close>

type_synonym unicode = "nat list"

record 'c platform =
  remote_version :: "nat \<Rightarrow> error + unicode"
  get_configs :: "'c \<Rightarrow> ('c \<times> error option) option"

record 'c platform_state =
  version_file :: "unicode option"
  work_files :: 'c
  requests :: nat

definition get_remote_version ::
    "'c platform \<Rightarrow> 'c platform_state \<Rightarrow> 'c platform_state \<times> (error + unicode)" where
  "get_remote_version P s = (s\<lparr>requests := Suc (requests s)\<rparr>, remote_version P (requests s))"

text \<open>
  \<^verbatim>\<open>str.strip()\<close> removes the leading and trailing white space. The white space of a
  \<^verbatim>\<open>str\<close> is the code points U+0009 to U+000D, U+001C to U+0020, U+0085, U+00A0,
  U+1680, U+2000 to U+200A, U+2028, U+2029, U+202F, U+205F and U+3000.
\<close>

definition is_space :: "nat \<Rightarrow> bool" where
  "is_space c =
     ((9 \<le> c \<and> c \<le> 13) \<or> (28 \<le> c \<and> c \<le> 32) \<or> c = 133 \<or> c = 160 \<or> c = 5760
      \<or> (8192 \<le> c \<and> c \<le> 8202) \<or> c = 8232 \<or> c = 8233 \<or> c = 8239 \<or> c = 8287
      \<or> c = 12288)"

definition py_strip :: "unicode \<Rightarrow> unicode" where
  "py_strip s = rev (dropWhile is_space (rev (dropWhile is_space s)))"

definition get_local_version :: "'c platform_state \<Rightarrow> error + unicode" where
  "get_local_version s =
     (case version_file s of None \<Rightarrow> Inl FileNotFoundError | Some t \<Rightarrow> Inr (py_strip t))"

definition save_remote_version ::
    "'c platform \<Rightarrow> 'c platform_state \<Rightarrow> 'c platform_state \<times> error option" where
  "save_remote_version P s =
     (case get_remote_version P s of
        (s1, Inl e) \<Rightarrow> (s1, Some e)
      | (s1, Inr v) \<Rightarrow> (s1\<lparr>version_file := Some v\<rparr>, None))"

definition check_update ::
    "'c platform \<Rightarrow> 'c platform_state \<Rightarrow> 'c platform_state \<times> (error + bool)" where
  "check_update P s =
     (case get_local_version s of
        Inl e \<Rightarrow> (if e = FileNotFoundError then (s, Inr True) else (s, Inl e))
      | Inr local_version \<Rightarrow>
          (case get_remote_version P s of
             (s1, Inl e) \<Rightarrow> (s1, Inl e)
           | (s1, Inr v) \<Rightarrow> (s1, Inr (local_version \<noteq> v))))"

text \<open>
  The body of the loop of \<^verbatim>\<open>main\<close> (lines 298-310) for one platform. A commit is the
  pair of the platform's name and the version of its message; the time stamp and the
  failures of git are left out.
\<close>

definition update_platform ::
    "string \<Rightarrow> 'c platform \<Rightarrow> 'c platform_state \<Rightarrow> (string \<times> unicode) list
      \<Rightarrow> (('c platform_state \<times> (string \<times> unicode) list) \<times> error option) option" where
  "update_platform name P s commits =
     (case get_remote_version P s of
        (s1, Inl e) \<Rightarrow> Some ((s1, commits), Some e)
      | (s1, Inr v) \<Rightarrow>
     (case check_update P s1 of
        (s2, Inl e) \<Rightarrow> Some ((s2, commits), Some e)
      | (s2, Inr update) \<Rightarrow>
     (if \<not> update then Some ((s2, commits), None)
      else
     (case get_configs P (work_files s2) of
        None \<Rightarrow> None
      | Some (w, Some e) \<Rightarrow> Some ((s2\<lparr>work_files := w\<rparr>, commits), Some e)
      | Some (w, None) \<Rightarrow>
     (case save_remote_version P (s2\<lparr>work_files := w\<rparr>) of
        (s3, Some e) \<Rightarrow> Some ((s3, commits), Some e)
      | (s3, None) \<Rightarrow> Some ((s3, commits @ [(name, v)]), None))))))"

text \<open>
  The loop of \<^verbatim>\<open>main\<close> over the platforms: an exception ends the run, and the
  platforms after it are not visited.
\<close>

fun main_loop ::
    "(string \<times> 'c platform \<times> 'c platform_state) list \<Rightarrow> (string \<times> unicode) list
      \<Rightarrow> ('c platform_state list \<times> (string \<times> unicode) list \<times> error option) option" where
  "main_loop [] commits = Some ([], commits, None)"
| "main_loop ((name, P, s) # rest) commits =
     (case update_platform name P s commits of
        None \<Rightarrow> None
      | Some ((s1, commits1), Some e) \<Rightarrow> Some (s1 # map (\<lambda>r. snd (snd r)) rest, commits1, Some e)
      | Some ((s1, commits1), None) \<Rightarrow>
          (case main_loop rest commits1 of
             None \<Rightarrow> None
           | Some (ss, commits2, r) \<Rightarrow> Some (s1 # ss, commits2, r)))"

section \<open>Effects of the handlers on the store\<close>

text \<open>An object once its \<^verbatim>\<open>__class__\<close> entry is removed.\<close>

fun without_class :: "obj \<Rightarrow> obj" where
  "without_class (ODict kvs) = ODict (filter (\<lambda>e. fst e \<noteq> ''__class__'') kvs)"
| "without_class (OList vs) = OList vs"

definition strip_heap :: "nat list \<Rightarrow> heap \<Rightarrow> heap" where
  "strip_heap as h = map (\<lambda>a. if a \<in> set as then without_class (h ! a) else h ! a) [0..<length h]"

text \<open>
  \<open>obj_extends x y\<close>: \<open>y\<close> is \<open>x\<close> up to elements appended to a list and up to the entries
  \<^verbatim>\<open>item\<close> and \<^verbatim>\<open>CatID\<close> of a dictionary; \<open>heap_extends h h'\<close>: every object of \<open>h\<close> is
  still in \<open>h'\<close>, changed at most in that way.
\<close>

fun obj_extends :: "obj \<Rightarrow> obj \<Rightarrow> bool" where
  "obj_extends (OList vs) (OList ws) = (take (length vs) ws = vs)"
| "obj_extends (ODict kvs) (ODict kvs') =
     (filter (\<lambda>e. fst e \<noteq> ''item'' \<and> fst e \<noteq> ''CatID'') kvs'
      = filter (\<lambda>e. fst e \<noteq> ''item'' \<and> fst e \<noteq> ''CatID'') kvs)"
| "obj_extends x y = False"

definition heap_extends :: "heap \<Rightarrow> heap \<Rightarrow> bool" where
  "heap_extends h h' = (length h \<le> length h' \<and> list_all2 obj_extends h (take (length h) h'))"

text \<open>The object at \<open>a\<close> is a dictionary with the key \<^verbatim>\<open>__class__\<close>.\<close>

definition has_class :: "heap \<Rightarrow> nat \<Rightarrow> bool" where
  "has_class h a =
     (case heap_get h a of
        Some (ODict kvs) \<Rightarrow> ''__class__'' \<in> fst ` set kvs
      | _ \<Rightarrow> False)"

section \<open>Example inputs\<close>

text \<open>
  The three pairs of the grouping example, with the keys the handler reads. In
  \<open>ex_shared\<close> the first two pairs refer to one category object; in \<open>ex_separate\<close> each
  pair has a category object of its own, as the example is written.
\<close>

definition ex_shared :: heap where
  "ex_shared =
    [OList [VRef 1, VRef 2, VRef 3],
     ODict [(''catObj'', VRef 4), (''itemObj'', VRef 6)],
     ODict [(''catObj'', VRef 4), (''itemObj'', VRef 7)],
     ODict [(''catObj'', VRef 5), (''itemObj'', VRef 8)],
     ODict [(''ID'', VInt 1)],
     ODict [(''ID'', VInt 2)],
     ODict [(''name'', VStr ''sword'')],
     ODict [(''name'', VStr ''shield'')],
     ODict [(''name'', VStr ''potion'')]]"

definition ex_separate :: heap where
  "ex_separate =
    [OList [VRef 1, VRef 2, VRef 3],
     ODict [(''catObj'', VRef 4), (''itemObj'', VRef 6)],
     ODict [(''catObj'', VRef 9), (''itemObj'', VRef 7)],
     ODict [(''catObj'', VRef 5), (''itemObj'', VRef 8)],
     ODict [(''ID'', VInt 1)],
     ODict [(''ID'', VInt 2)],
     ODict [(''name'', VStr ''sword'')],
     ODict [(''name'', VStr ''shield'')],
     ODict [(''name'', VStr ''potion'')],
     ODict [(''ID'', VInt 1)]]"

definition ex_skill :: heap where
  "ex_skill = [OList [VRef 1], ODict [(''ID'', VInt 1)]]"

definition ex_empty :: heap where
  "ex_empty = [OList []]"

definition ex_normalized :: heap where
  "ex_normalized = [ODict [(''root'', VRef 1)], ODict [(''item'', VRef 2)], OList []]"

definition ex_gold :: heap where
  "ex_gold =
    [OList [VRef 1, VRef 2],
     ODict [(''__class__'', VStr ''GoldProduct''), (''ID'', VInt 1)],
     ODict [(''__class__'', VStr ''GoldProduct''), (''ID'', VInt 2)]]"

text \<open>
  Stand-ins for the collaborators, small enough to evaluate: the inflater accepts a
  stream with the header \<open>78 DA\<close> and at least one more byte and returns what
  follows the header, the scanner yields the body as one segment, the decoder returns
  a list of one record, rooted at the object that the first byte names, and the writer
  prints the first key of a tree.
\<close>

definition ex_externals :: "byte list externals" where
  "ex_externals =
     \<lparr>zlib_decompress = (\<lambda>b. if take 2 b = [0x78, 0xDA] \<and> 2 < length b then Inr (drop 2 b)
                               else Inl ExternalError),
      extract_swf_data = (\<lambda>b. Inr b),
      extract_binary_data = (\<lambda>s. Inr [(''seg'', s)]),
      read_object = (\<lambda>b. case b of [] \<Rightarrow> Inl ExternalError
                        | x # r \<Rightarrow> Inr ([OList [VRef 1], ODict [(''a'', VInt 1)]], VRef (unat x))),
      unparse = (\<lambda>t. case t of PDict ((k, v) # r) \<Rightarrow> Inr k | _ \<Rightarrow> Inl ExternalError),
      file_name = (\<lambda>k. k),
      http_get = (\<lambda>u. Inr [])\<rparr>"




text \<open>
  Two platforms whose remote version is \<open>2\<close> (the code point 50): the extraction of the
  first succeeds, that of the second raises. Both start from the local version \<open>1\<close>
  (the code point 49).
\<close>

definition ex_platform_ok :: "unit platform" where
  "ex_platform_ok = \<lparr>remote_version = (\<lambda>k. Inr [50]), get_configs = (\<lambda>w. Some (w, None))\<rparr>"

definition ex_platform_fail :: "unit platform" where
  "ex_platform_fail =
     \<lparr>remote_version = (\<lambda>k. Inr [50]), get_configs = (\<lambda>w. Some (w, Some ExternalError))\<rparr>"

definition ex_state :: "unit platform_state" where
  "ex_state = \<lparr>version_file = Some [49], work_files = (), requests = 0\<rparr>"

section \<open>The key annotator\<close>

lemma dict_set_fresh: "k \<notin> fst ` set r \<Longrightarrow> dict_set r k v = r @ [(k, v)]"
  by (induction r) auto

lemma add_at_step:
  "(\<lambda>result (key, value).
        (case value of
           PList xs \<Rightarrow> dict_set result key (PList (map add_at_prefix_to_keys xs))
         | PDict d \<Rightarrow> dict_set result (CHR ''@'' # key) (add_at_prefix_to_keys value)
         | _ \<Rightarrow> dict_set result (CHR ''@'' # key) value))
   = (\<lambda>result e. dict_set result (fst (annotated_entry e)) (snd (annotated_entry e)))"
  by (intro ext) (auto simp: annotated_entry_def split: pyval.splits)

lemma foldl_dict_set_distinct:
  "distinct (map fst (acc @ map f kvs)) \<Longrightarrow>
   foldl (\<lambda>r e. dict_set r (fst (f e)) (snd (f e))) acc kvs = acc @ map f kvs"
proof (induction kvs arbitrary: acc)
  case Nil
  then show ?case by simp
next
  case (Cons e kvs)
  from Cons.prems have fresh: "fst (f e) \<notin> fst ` set acc" by auto
  from Cons.prems have "distinct (map fst ((acc @ [f e]) @ map f kvs))" by simp
  from Cons.IH [OF this] show ?case by (simp add: dict_set_fresh [OF fresh])
qed

text \<open>
  C1, as stated, at a map in which a bare list-valued key coincides with the prefixed
  form of a scalar key: the claim promises the entry \<^verbatim>\<open>@a\<close> with the annotated list,
  the code's second assignment to \<^verbatim>\<open>result["@a"]\<close> replaces it by the scalar.
\<close>

theorem add_at_prefix_to_keys_clash:
  "add_at_prefix_to_keys (PDict [(''@a'', PList [PNone]), (''a'', PInt 1)])
     = PDict [(''@a'', PInt 1)]
   \<and> map_of [(''@a'', PInt 1)] (fst (annotated_entry (''@a'', PList [PNone])))
     \<noteq> Some (snd (annotated_entry (''@a'', PList [PNone])))"
  by (simp add: annotated_entry_def)

text \<open>
  C1 (amended): whenever the output keys of a map's entries are pairwise distinct, one
  application of the key annotator returns the map's entries in their order, each
  list-valued entry under its bare key with every element annotated, each other entry
  under its key with exactly one leading \<^verbatim>\<open>@\<close> and its value annotated; a list is
  annotated element by element, and a value that is neither a map nor a list is
  returned unchanged.
\<close>

theorem add_at_prefix_to_keys_rule:
  "(distinct (map (fst \<circ> annotated_entry) kvs) \<longrightarrow>
      add_at_prefix_to_keys (PDict kvs) = PDict (map annotated_entry kvs))
   \<and> add_at_prefix_to_keys (PList xs) = PList (map add_at_prefix_to_keys xs)
   \<and> (\<not> is_dict v \<and> \<not> is_list v \<longrightarrow> add_at_prefix_to_keys v = v)"
proof (intro conjI impI)
  assume d: "distinct (map (fst \<circ> annotated_entry) kvs)"
  then have "distinct (map fst ([] @ map annotated_entry kvs))" by simp
  from foldl_dict_set_distinct [OF this]
  show "add_at_prefix_to_keys (PDict kvs) = PDict (map annotated_entry kvs)"
    by (simp add: add_at_step)
next
  show "add_at_prefix_to_keys (PList xs) = PList (map add_at_prefix_to_keys xs)" by simp
next
  assume "\<not> is_dict v \<and> \<not> is_list v"
  then show "add_at_prefix_to_keys v = v" by (cases v) auto
qed

theorem add_at_prefix_to_keys_rule_witness:
  "distinct (map (fst \<circ> annotated_entry)
      [(''ID'', PInt 7), (''item'', PList [PDict [(''name'', PStr ''sword'')]]),
       (''meta'', PDict [(''tag'', PNone)])])
   \<and> add_at_prefix_to_keys (PDict
      [(''ID'', PInt 7), (''item'', PList [PDict [(''name'', PStr ''sword'')]]),
       (''meta'', PDict [(''tag'', PNone)])])
     = PDict [(''@ID'', PInt 7), (''item'', PList [PDict [(''@name'', PStr ''sword'')]]),
         (''@meta'', PDict [(''@tag'', PNone)])]
   \<and> \<not> is_dict (PStr ''x'') \<and> \<not> is_list (PStr ''x'')
   \<and> add_at_prefix_to_keys (PStr ''x'') = PStr ''x''"
  using add_at_prefix_to_keys_rule
    [of "[(''ID'', PInt 7), (''item'', PList [PDict [(''name'', PStr ''sword'')]]),
          (''meta'', PDict [(''tag'', PNone)])]" "[]" "PStr ''x''"]
  by (simp add: annotated_entry_def)

section \<open>The pass-through handler\<close>

lemma wrap_root_list:
  "wrap_root k (PList ts) = PDict [(''root'', PDict [(k, PList (map add_at_prefix_to_keys ts))])]"
  by (simp add: wrap_root_def)

lemma wrap_root_dict:
  "wrap_root k (PDict kvs) = PDict [(''root'', PDict [(CHR ''@'' # k, add_at_prefix_to_keys (PDict kvs))])]"
  by (simp add: wrap_root_def)

text \<open>
  C3, as stated, at a list of one record: the claim promises the stored list to be the
  input list element for element, the handler stores the record with its key prefixed.
\<close>

theorem handle_skill_xml_info_renames:
  "handle_skill_xml_info 3 ex_skill (VRef 0)
     = Some (ex_skill, Inr (PDict [(''root'', PDict [(''item'', PList [PDict [(''@ID'', PInt 1)]])])]))
   \<and> load 3 ex_skill (VRef 0) = Some (PList [PDict [(''ID'', PInt 1)]])
   \<and> PList [PDict [(''@ID'', PInt 1)]] \<noteq> PList [PDict [(''ID'', PInt 1)]]"
  by (simp add: handle_skill_xml_info_def ex_skill_def heap_get_def wrap_root_def numeral_3_eq_3)

text \<open>
  C3 (amended): for every input list, the pass-through handler leaves the store as it
  is and returns, under the new root key and the bare key \<^verbatim>\<open>item\<close>, the list of the key
  annotator's results on the input elements, in their order.
\<close>

theorem handle_skill_xml_info_wraps:
  "load n h data = Some (PList ts) \<Longrightarrow>
   handle_skill_xml_info n h data
     = Some (h, Inr (PDict [(''root'', PDict [(''item'', PList (map add_at_prefix_to_keys ts))])]))"
  by (simp add: handle_skill_xml_info_def wrap_root_list)

theorem handle_skill_xml_info_wraps_witness:
  "load 3 ex_skill (VRef 0) = Some (PList [PDict [(''ID'', PInt 1)]])
   \<and> handle_skill_xml_info 3 ex_skill (VRef 0)
     = Some (ex_skill, Inr (PDict [(''root'', PDict [(''item'', PList [PDict [(''@ID'', PInt 1)]])])]))"
proof -
  have l: "load 3 ex_skill (VRef 0) = Some (PList [PDict [(''ID'', PInt 1)]])"
    by (simp add: ex_skill_def heap_get_def numeral_3_eq_3)
  from handle_skill_xml_info_wraps [OF l] l show ?thesis by simp
qed

text \<open>
  C4, as stated, at the tree the handler returns for the empty list: applied to that
  tree, the handler returns another tree.
\<close>

theorem handle_skill_xml_info_not_idempotent:
  "handle_skill_xml_info 1 ex_empty (VRef 0)
     = Some (ex_empty, Inr (PDict [(''root'', PDict [(''item'', PList [])])]))
   \<and> load 3 ex_normalized (VRef 0) = Some (PDict [(''root'', PDict [(''item'', PList [])])])
   \<and> handle_skill_xml_info 3 ex_normalized (VRef 0)
     = Some (ex_normalized,
         Inr (PDict [(''root'', PDict [(''@item'', PDict [(''@root'', PDict [(''item'', PList [])])])])]))
   \<and> PDict [(''root'', PDict [(''@item'', PDict [(''@root'', PDict [(''item'', PList [])])])])]
     \<noteq> PDict [(''root'', PDict [(''item'', PList [])])]"
  by (simp add: handle_skill_xml_info_def ex_empty_def ex_normalized_def heap_get_def wrap_root_def
      numeral_3_eq_3)

text \<open>
  C4 (amended): applied to any graph that unfolds to the tree \<open>t1\<close> returned for a list,
  the pass-through handler wraps the annotation of \<open>t1\<close> under the root key and the
  prefixed key \<^verbatim>\<open>@item\<close>; this tree is never \<open>t1\<close> itself.
\<close>

theorem handle_skill_xml_info_twice:
  assumes "load n h data = Some (PList ts)"
    and "handle_skill_xml_info n h data = Some (h1, Inr t1)"
    and "load m h2 v2 = Some t1"
  shows "handle_skill_xml_info m h2 v2
      = Some (h2, Inr (PDict [(''root'', PDict [(''@item'', add_at_prefix_to_keys t1)])]))
    \<and> PDict [(''root'', PDict [(''@item'', add_at_prefix_to_keys t1)])] \<noteq> t1"
proof -
  from assms(1,2) have t1: "t1 = PDict [(''root'', PDict [(''item'', PList (map add_at_prefix_to_keys ts))])]"
    by (simp add: handle_skill_xml_info_def wrap_root_list)
  then have "wrap_root ''item'' t1 = PDict [(''root'', PDict [(''@item'', add_at_prefix_to_keys t1)])]"
    by (simp only: wrap_root_dict)
  with assms(3) have "handle_skill_xml_info m h2 v2
      = Some (h2, Inr (PDict [(''root'', PDict [(''@item'', add_at_prefix_to_keys t1)])]))"
    by (simp add: handle_skill_xml_info_def)
  moreover from t1 have "PDict [(''root'', PDict [(''@item'', add_at_prefix_to_keys t1)])] \<noteq> t1"
    by simp
  ultimately show ?thesis by simp
qed

theorem handle_skill_xml_info_twice_witness:
  "load 1 ex_empty (VRef 0) = Some (PList [])
   \<and> handle_skill_xml_info 1 ex_empty (VRef 0)
       = Some (ex_empty, Inr (PDict [(''root'', PDict [(''item'', PList [])])]))
   \<and> load 3 ex_normalized (VRef 0) = Some (PDict [(''root'', PDict [(''item'', PList [])])])
   \<and> handle_skill_xml_info 3 ex_normalized (VRef 0)
     = Some (ex_normalized,
         Inr (PDict [(''root'', PDict [(''@item'', PDict [(''@root'', PDict [(''item'', PList [])])])])]))"
proof -
  have a: "load 1 ex_empty (VRef 0) = Some (PList [])"
    by (simp add: ex_empty_def heap_get_def)
  have b: "handle_skill_xml_info 1 ex_empty (VRef 0)
       = Some (ex_empty, Inr (PDict [(''root'', PDict [(''item'', PList [])])]))"
    by (simp add: handle_skill_xml_info_def ex_empty_def heap_get_def wrap_root_def)
  have c: "load 3 ex_normalized (VRef 0) = Some (PDict [(''root'', PDict [(''item'', PList [])])])"
    by (simp add: ex_normalized_def heap_get_def numeral_3_eq_3)
  from handle_skill_xml_info_twice [OF a b c] a b c show ?thesis by simp
qed

section \<open>The grouping handler\<close>

text \<open>
  C2 at the three pairs of the example, each pair with a category object of its own: the
  claim promises two groups, the first with both items of category 1. The handler
  reaches the second pair, finds the id 1 already in \<^verbatim>\<open>result\<close>, and reads \<^verbatim>\<open>"item"\<close> from
  that pair's own category object, which has no such key: KeyError, after the first
  item was grouped and \<^verbatim>\<open>CatID\<close> was set on the second.
\<close>

theorem handle_item_xml_info_separate_categories:
  "handle_item_xml_info (Suc (Suc n)) ex_separate (VRef 0) =
   Some ([OList [VRef 1, VRef 2, VRef 3],
    ODict [(''catObj'', VRef 4), (''itemObj'', VRef 6)],
    ODict [(''catObj'', VRef 9), (''itemObj'', VRef 7)],
    ODict [(''catObj'', VRef 5), (''itemObj'', VRef 8)],
    ODict [(''ID'', VInt 1), (''item'', VRef 10)], ODict [(''ID'', VInt 2)],
    ODict [(''name'', VStr ''sword''), (''CatID'', VInt 1)],
    ODict [(''name'', VStr ''shield''), (''CatID'', VInt 1)],
    ODict [(''name'', VStr ''potion'')], ODict [(''ID'', VInt 1)],
    OList [VRef 6]],
   Inl KeyError)"
  by (simp add: handle_item_xml_info_def ex_separate_def heap_get_def)

text \<open>
  With one category object shared by the first two pairs, the handler returns the two
  groups of the example, in first-seen order, the items in encounter order with their
  \<^verbatim>\<open>CatID\<close>.
\<close>

lemma handle_item_xml_info_shared_category:
  "handle_item_xml_info (Suc (Suc (Suc (Suc n)))) ex_shared (VRef 0) =
  Some
  ([OList [VRef 1, VRef 2, VRef 3],
    ODict [(''catObj'', VRef 4), (''itemObj'', VRef 6)],
    ODict [(''catObj'', VRef 4), (''itemObj'', VRef 7)],
    ODict [(''catObj'', VRef 5), (''itemObj'', VRef 8)],
    ODict [(''ID'', VInt 1), (''item'', VRef 9)],
    ODict [(''ID'', VInt 2), (''item'', VRef 10)],
    ODict [(''name'', VStr ''sword''), (''CatID'', VInt 1)],
    ODict [(''name'', VStr ''shield''), (''CatID'', VInt 1)],
    ODict [(''name'', VStr ''potion''), (''CatID'', VInt 2)],
    OList [VRef 6, VRef 7], OList [VRef 8]],
   Inr (PDict
         [(''root'',
           PDict
            [(''items'',
              PList
               [PDict
                 [(''@ID'', PInt 1),
                  (''item'',
                   PList
                    [PDict [(''@name'', PStr ''sword''), (''@CatID'', PInt 1)],
                     PDict [(''@name'', PStr ''shield''), (''@CatID'', PInt 1)]])],
                PDict
                 [(''@ID'', PInt 2),
                  (''item'',
                   PList [PDict [(''@name'', PStr ''potion''), (''@CatID'', PInt 2)]])]])])]))"
  by (simp add: handle_item_xml_info_def ex_shared_def heap_get_def item_finish_def load_all_def
      wrap_root_def)

section \<open>Effects on the store\<close>

lemma without_class_idem: "without_class (without_class x) = without_class x"
  by (cases x) auto

lemma py_pop_frame:
  assumes "py_pop h v ''__class__'' = Inr h'"
  shows "length h' = length h"
    and "\<And>a. a < length h \<Longrightarrow> h' ! a = h ! a \<or> h' ! a = without_class (h ! a)"
    and "\<And>a. a < length h \<Longrightarrow> h' ! a \<noteq> h ! a \<Longrightarrow> v = VRef a"
  using assms
  by (cases v; auto simp: heap_get_def nth_list_update split: obj.splits if_splits)+

lemma delete_class_all_frame:
  "delete_class_all h vs = (h', r) \<Longrightarrow>
   length h' = length h
   \<and> (\<forall>a<length h. (h' ! a = h ! a \<or> h' ! a = without_class (h ! a))
        \<and> (h' ! a \<noteq> h ! a \<longrightarrow> VRef a \<in> set vs))"
proof (induction vs arbitrary: h h' r)
  case Nil
  then show ?case by simp
next
  case (Cons v vs)
  show ?case
  proof (cases "py_pop h v ''__class__''")
    case (Inl e)
    with Cons.prems show ?thesis by simp
  next
    case (Inr h1)
    obtain h2 r2 where d: "delete_class_all h1 vs = (h2, r2)" by (cases "delete_class_all h1 vs")
    from Cons.prems Inr d have h': "h' = h2" by (auto split: sum.splits)
    note f1 = py_pop_frame [OF Inr]
    from Cons.IH [OF d] have f2: "length h2 = length h1"
      "\<And>a. a < length h1 \<Longrightarrow> (h2 ! a = h1 ! a \<or> h2 ! a = without_class (h1 ! a))"
      "\<And>a. a < length h1 \<Longrightarrow> h2 ! a \<noteq> h1 ! a \<Longrightarrow> VRef a \<in> set vs"
      by auto
    show ?thesis
    proof (intro conjI allI impI)
      show "length h' = length h" using f1(1) f2(1) h' by simp
    next
      fix a assume a: "a < length h"
      then have a1: "a < length h1" using f1(1) by simp
      from f1(2) [OF a] f2(2) [OF a1] h'
      show "h' ! a = h ! a \<or> h' ! a = without_class (h ! a)"
        by (auto simp: without_class_idem)
    next
      fix a assume a: "a < length h" and ne: "h' ! a \<noteq> h ! a"
      then have a1: "a < length h1" using f1(1) by simp
      show "VRef a \<in> set (v # vs)"
      proof (cases "h1 ! a = h ! a")
        case True
        with ne h' have "h2 ! a \<noteq> h1 ! a" by simp
        from f2(3) [OF a1 this] show ?thesis by simp
      next
        case False
        from f1(3) [OF a] False show ?thesis by simp
      qed
    qed
  qed
qed

lemma handle_gold_frame:
  assumes "handle_gold_product_xml_info n h data = Some (h', r)"
  shows "length h' = length h \<and> (\<forall>a<length h. h' ! a = h ! a \<or> h' ! a = without_class (h ! a))"
proof (cases "py_iter h data")
  case (Inl e)
  with assms show ?thesis by (simp add: handle_gold_product_xml_info_def)
next
  case (Inr vs)
  obtain h1 r1 where d: "delete_class_all h vs = (h1, r1)" by (cases "delete_class_all h vs")
  from assms Inr d have "h' = h1"
    by (auto simp: handle_gold_product_xml_info_def split: sum.splits option.splits)
  with delete_class_all_frame [OF d] show ?thesis by simp
qed


lemma heap_extends_nth:
  "heap_extends h h' \<longleftrightarrow> length h \<le> length h' \<and> (\<forall>a<length h. obj_extends (h ! a) (h' ! a))"
  by (auto simp: heap_extends_def list_all2_conv_all_nth)

lemma obj_extends_refl: "obj_extends x x"
  by (cases x) auto

lemma obj_extends_trans: "obj_extends x y \<Longrightarrow> obj_extends y z \<Longrightarrow> obj_extends x z"
proof (cases x; cases y; cases z)
  fix vs ws us
  assume "obj_extends x y" "obj_extends y z" "x = OList vs" "y = OList ws" "z = OList us"
  then have a: "take (length vs) ws = vs" and b: "take (length ws) us = ws" by auto
  from a have "length vs \<le> length ws" by (metis length_take min.cobounded1)
  then have "take (length vs) us = take (length vs) (take (length ws) us)" by (simp add: min_def)
  with a b have "take (length vs) us = vs" by simp
  with \<open>x = OList vs\<close> \<open>z = OList us\<close> show "obj_extends x z" by simp
qed auto

lemma heap_extends_refl: "heap_extends h h"
  by (simp add: heap_extends_nth obj_extends_refl)

lemma heap_extends_trans: "heap_extends h h1 \<Longrightarrow> heap_extends h1 h2 \<Longrightarrow> heap_extends h h2"
  unfolding heap_extends_nth
  by (meson obj_extends_trans le_trans less_le_trans)

lemma heap_extends_alloc: "heap_extends h (h @ [x])"
  by (simp add: heap_extends_nth nth_append obj_extends_refl)

lemma filter_dict_set:
  "filter (\<lambda>e. fst e \<noteq> ''item'' \<and> fst e \<noteq> ''CatID'') (dict_set kvs k v)
   = (if k = ''item'' \<or> k = ''CatID'' then filter (\<lambda>e. fst e \<noteq> ''item'' \<and> fst e \<noteq> ''CatID'') kvs
      else dict_set (filter (\<lambda>e. fst e \<noteq> ''item'' \<and> fst e \<noteq> ''CatID'') kvs) k v)"
  by (induction kvs) auto

lemma py_setitem_extends:
  "py_setitem h v k x = Inr h' \<Longrightarrow> k = ''item'' \<or> k = ''CatID'' \<Longrightarrow> heap_extends h h'"
  by (cases v)
    (auto simp: heap_get_def heap_extends_nth nth_list_update obj_extends_refl filter_dict_set
      split: obj.splits if_splits)

lemma py_append_extends: "py_append h v x = Inr h' \<Longrightarrow> heap_extends h h'"
  by (cases v)
    (auto simp: heap_get_def heap_extends_nth nth_list_update obj_extends_refl
      split: obj.splits if_splits)


lemma item_step_extends:
  assumes "item_step h result obj = (h', r)"
  shows "heap_extends h h'"
proof -
  note tr = heap_extends_trans
  note al = heap_extends_alloc [of h "OList []"]
  show ?thesis
    using assms
    apply (simp split: sum.splits if_splits prod.splits)
    apply (auto intro: heap_extends_refl al
        tr [OF al py_setitem_extends]
        dest!: py_setitem_extends py_append_extends)
    apply (blast intro: tr al)+
    done
qed


lemma item_loop_extends:
  "item_loop n h d i result = Some (h', r) \<Longrightarrow> heap_extends h h'"
proof (induction n arbitrary: h i result)
  case 0
  then show ?case by simp
next
  case (Suc n)
  show ?case
  proof (cases "heap_get h d")
    case None
    with Suc.prems show ?thesis by (simp add: heap_extends_refl)
  next
    case (Some x)
    show ?thesis
    proof (cases x)
      case (ODict kvs)
      with Some Suc.prems show ?thesis by (simp add: heap_extends_refl)
    next
      case (OList vs)
      show ?thesis
      proof (cases "i < length vs")
        case False
        with Some OList Suc.prems show ?thesis by (simp add: heap_extends_refl)
      next
        case True
        obtain h1 r1 where st: "item_step h result (vs ! i) = (h1, r1)"
          by (cases "item_step h result (vs ! i)")
        note e1 = item_step_extends [OF st]
        show ?thesis
        proof (cases r1)
          case (Inl e)
          with Some OList True st Suc.prems have "h' = h1" by simp
          with e1 show ?thesis by simp
        next
          case (Inr result1)
          with Some OList True st Suc.prems
          have "item_loop n h1 d (Suc i) result1 = Some (h', r)" by simp
          from heap_extends_trans [OF e1 Suc.IH [OF this]] show ?thesis .
        qed
      qed
    qed
  qed
qed

lemma handle_item_extends:
  assumes "handle_item_xml_info n h data = Some (h', r)"
  shows "heap_extends h h'"
proof (cases "is_list_ref h data")
  case None
  with assms show ?thesis
    by (auto simp: handle_item_xml_info_def item_finish_def heap_extends_refl
        split: sum.splits list.splits option.splits)
next
  case (Some d)
  show ?thesis
  proof (cases "item_loop n h d 0 []")
    case None
    with Some assms show ?thesis by (simp add: handle_item_xml_info_def)
  next
    case (Some a)
    then obtain h1 r1 where l: "item_loop n h d 0 [] = Some (h1, r1)" by (cases a) auto
    from \<open>is_list_ref h data = Some d\<close> l assms have "h' = h1"
      by (auto simp: handle_item_xml_info_def item_finish_def split: sum.splits option.splits)
    with item_loop_extends [OF l] show ?thesis by simp
  qed
qed


lemma handle_gold_product_xml_info_ex_gold:
  "handle_gold_product_xml_info 2 ex_gold (VRef 0)
     = Some ([OList [VRef 1, VRef 2], ODict [(''ID'', VInt 1)], ODict [(''ID'', VInt 2)]],
         Inr (PDict [(''root'', PDict [(''item'',
           PList [PDict [(''@ID'', PInt 1)], PDict [(''@ID'', PInt 2)]])])]))"
  by (simp add: handle_gold_product_xml_info_def ex_gold_def heap_get_def load_all_def
      wrap_root_def numeral_2_eq_2)

text \<open>
  C5, as stated, at a list of two records: after the field-stripping handler returns,
  both input objects have lost their \<^verbatim>\<open>__class__\<close> entry.
\<close>

theorem handle_gold_product_xml_info_mutates:
  "map_option fst (handle_gold_product_xml_info 2 ex_gold (VRef 0))
     = Some [OList [VRef 1, VRef 2], ODict [(''ID'', VInt 1)], ODict [(''ID'', VInt 2)]]
   \<and> [OList [VRef 1, VRef 2], ODict [(''ID'', VInt 1)], ODict [(''ID'', VInt 2)]] \<noteq> ex_gold"
  by (simp add: handle_gold_product_xml_info_ex_gold) (simp add: ex_gold_def)

text \<open>
  C5 (amended): whenever a handler returns, with a tree or with an exception, the
  pass-through handler has left the store unchanged; the field-stripping handler has
  kept every object, each either unchanged or without its \<^verbatim>\<open>__class__\<close> entry; the
  grouping handler has kept every object, having changed at most the entries \<^verbatim>\<open>item\<close>
  and \<^verbatim>\<open>CatID\<close> of dictionaries and appended to lists.
\<close>

theorem handlers_effects:
  "(handle_skill_xml_info n1 h1 d1 = Some (h1', r1) \<longrightarrow> h1' = h1)
   \<and> (handle_gold_product_xml_info n2 h2 d2 = Some (h2', r2) \<longrightarrow>
        length h2' = length h2
        \<and> (\<forall>a<length h2. h2' ! a = h2 ! a \<or> h2' ! a = without_class (h2 ! a)))
   \<and> (handle_item_xml_info n3 h3 d3 = Some (h3', r3) \<longrightarrow> heap_extends h3 h3')"
proof (intro conjI impI)
  assume "handle_skill_xml_info n1 h1 d1 = Some (h1', r1)"
  then show "h1' = h1" by (auto simp: handle_skill_xml_info_def split: option.splits)
next
  assume g: "handle_gold_product_xml_info n2 h2 d2 = Some (h2', r2)"
  from handle_gold_frame [OF g] show "length h2' = length h2" by simp
  from handle_gold_frame [OF g]
  show "\<forall>a<length h2. h2' ! a = h2 ! a \<or> h2' ! a = without_class (h2 ! a)" by simp
next
  assume "handle_item_xml_info n3 h3 d3 = Some (h3', r3)"
  then show "heap_extends h3 h3'" by (rule handle_item_extends)
qed

lemma handle_skill_xml_info_ex_skill:
  "handle_skill_xml_info 3 ex_skill (VRef 0)
     = Some (ex_skill, Inr (PDict [(''root'', PDict [(''item'', PList [PDict [(''@ID'', PInt 1)]])])]))"
  by (simp add: handle_skill_xml_info_def ex_skill_def heap_get_def wrap_root_def numeral_3_eq_3)

theorem handlers_effects_witness:
  "handle_skill_xml_info 3 ex_skill (VRef 0)
     = Some (ex_skill, Inr (PDict [(''root'', PDict [(''item'', PList [PDict [(''@ID'', PInt 1)]])])]))
   \<and> handle_gold_product_xml_info 2 ex_gold (VRef 0)
     = Some ([OList [VRef 1, VRef 2], ODict [(''ID'', VInt 1)], ODict [(''ID'', VInt 2)]],
         Inr (PDict [(''root'', PDict [(''item'',
           PList [PDict [(''@ID'', PInt 1)], PDict [(''@ID'', PInt 2)]])])]))
   \<and> [OList [VRef 1, VRef 2], ODict [(''ID'', VInt 1)], ODict [(''ID'', VInt 2)]] ! 1
       = without_class (ex_gold ! 1)
   \<and> (\<exists>h' r. handle_item_xml_info 4 ex_shared (VRef 0) = Some (h', r) \<and> heap_extends ex_shared h')"
proof -
  note s = handle_skill_xml_info_ex_skill
  note g = handle_gold_product_xml_info_ex_gold
  have i: "handle_item_xml_info 4 ex_shared (VRef 0) =
      handle_item_xml_info (Suc (Suc (Suc (Suc 0)))) ex_shared (VRef 0)"
    by (simp add: numeral_eq_Suc)
  note i' = handle_item_xml_info_shared_category [of 0, folded i]
  from handlers_effects [of 3 ex_skill "VRef 0" _ _ 2 ex_gold "VRef 0" _ _ 4 ex_shared "VRef 0", 
      unfolded s g i']
  have "heap_extends ex_shared
     [OList [VRef 1, VRef 2, VRef 3],
    ODict [(''catObj'', VRef 4), (''itemObj'', VRef 6)],
    ODict [(''catObj'', VRef 4), (''itemObj'', VRef 7)],
    ODict [(''catObj'', VRef 5), (''itemObj'', VRef 8)],
    ODict [(''ID'', VInt 1), (''item'', VRef 9)],
    ODict [(''ID'', VInt 2), (''item'', VRef 10)],
    ODict [(''name'', VStr ''sword''), (''CatID'', VInt 1)],
    ODict [(''name'', VStr ''shield''), (''CatID'', VInt 1)],
    ODict [(''name'', VStr ''potion''), (''CatID'', VInt 2)],
    OList [VRef 6, VRef 7], OList [VRef 8]]"
    by blast
  with i' s g show ?thesis by (simp add: ex_gold_def)
qed

section \<open>The field-stripping handler\<close>

lemma strip_heap_length [simp]: "length (strip_heap as h) = length h"
  by (simp add: strip_heap_def)

lemma strip_heap_nth:
  "a < length h \<Longrightarrow> strip_heap as h ! a = (if a \<in> set as then without_class (h ! a) else h ! a)"
  by (simp add: strip_heap_def)

lemma py_pop_has_class:
  "has_class h a \<Longrightarrow> py_pop h (VRef a) ''__class__'' = Inr (h[a := without_class (h ! a)])"
  by (auto simp: has_class_def heap_get_def split: option.splits obj.splits if_splits)

lemma delete_class_all_strip:
  "distinct as \<Longrightarrow> \<forall>a\<in>set as. has_class h a \<Longrightarrow>
   delete_class_all h (map VRef as) = (strip_heap as h, Inr (map VRef as))"
proof (induction as arbitrary: h)
  case Nil
  have "strip_heap [] h = h" by (simp add: strip_heap_def map_nth)
  then show ?case by simp
next
  case (Cons a as)
  let ?h1 = "h[a := without_class (h ! a)]"
  from Cons.prems have a: "has_class h a" and na: "a \<notin> set as" and d: "distinct as" by auto
  have "\<forall>b\<in>set as. has_class ?h1 b"
  proof
    fix b assume b: "b \<in> set as"
    with na have "b \<noteq> a" by auto
    moreover from b Cons.prems have "has_class h b" by simp
    ultimately show "has_class ?h1 b"
      by (auto simp: has_class_def heap_get_def split: if_splits)
  qed
  from Cons.IH [OF d this]
  have ih: "delete_class_all ?h1 (map VRef as) = (strip_heap as ?h1, Inr (map VRef as))" .
  have "strip_heap as ?h1 = strip_heap (a # as) h"
  proof (rule nth_equalityI)
    show "length (strip_heap as ?h1) = length (strip_heap (a # as) h)" by simp
  next
    fix i assume "i < length (strip_heap as ?h1)"
    then have i: "i < length h" by simp
    show "strip_heap as ?h1 ! i = strip_heap (a # as) h ! i"
    proof (cases "i = a")
      case True
      with na i show ?thesis by (simp add: strip_heap_nth)
    next
      case False
      with i show ?thesis by (simp add: strip_heap_nth)
    qed
  qed
  with ih py_pop_has_class [OF a] show ?case by simp
qed

text \<open>
  C9 (amended): for an input list of pairwise distinct objects that each contain
  \<^verbatim>\<open>__class__\<close>, the field-stripping handler removes that entry from each of them in
  the store and returns, under the root key and the bare key \<^verbatim>\<open>item\<close>, the list of the
  key annotator's results on the stripped elements, in their order.
\<close>

theorem handle_gold_product_xml_info_strips:
  assumes "heap_get h d = Some (OList (map VRef as))"
    and "distinct as"
    and "\<forall>a\<in>set as. has_class h a"
  shows "handle_gold_product_xml_info n h (VRef d) =
     (case load_all n (strip_heap as h) (map VRef as) of
        None \<Rightarrow> None
      | Some ts \<Rightarrow> Some (strip_heap as h,
          Inr (PDict [(''root'', PDict [(''item'', PList (map add_at_prefix_to_keys ts))])])))"
  using assms(1) delete_class_all_strip [OF assms(2,3)]
  by (simp add: handle_gold_product_xml_info_def wrap_root_def split: option.splits)

text \<open>
  C9, as stated, at a list of two records: the claim promises the other fields of every
  element unchanged in the output, the handler returns them with their keys prefixed.
\<close>

theorem handle_gold_product_xml_info_renames:
  "map_option snd (handle_gold_product_xml_info 2 ex_gold (VRef 0))
     = Some (Inr (PDict [(''root'', PDict [(''item'',
           PList [PDict [(''@ID'', PInt 1)], PDict [(''@ID'', PInt 2)]])])]))
   \<and> load_all 2 (strip_heap [1, 2] ex_gold) [VRef 1, VRef 2]
     = Some [PDict [(''ID'', PInt 1)], PDict [(''ID'', PInt 2)]]
   \<and> [PDict [(''@ID'', PInt 1)], PDict [(''@ID'', PInt 2)]]
     \<noteq> [PDict [(''ID'', PInt 1)], PDict [(''ID'', PInt 2)]]"
  by (simp add: handle_gold_product_xml_info_ex_gold)
    (simp add: ex_gold_def strip_heap_def load_all_def heap_get_def numeral_2_eq_2 upt_rec)

theorem handle_gold_product_xml_info_strips_witness:
  "heap_get ex_gold 0 = Some (OList (map VRef [1, 2]))
   \<and> distinct [1, 2 :: nat]
   \<and> has_class ex_gold 1 \<and> has_class ex_gold 2
   \<and> handle_gold_product_xml_info 2 ex_gold (VRef 0)
     = Some (strip_heap [1, 2] ex_gold,
         Inr (PDict [(''root'', PDict [(''item'',
           PList [PDict [(''@ID'', PInt 1)], PDict [(''@ID'', PInt 2)]])])]))"
proof -
  have a: "heap_get ex_gold 0 = Some (OList (map VRef [1, 2]))"
    by (simp add: ex_gold_def heap_get_def)
  have b: "distinct [1, 2 :: nat]" by simp
  have c: "\<forall>a\<in>set [1, 2]. has_class ex_gold a"
    by (simp add: ex_gold_def has_class_def heap_get_def)
  have l: "load_all 2 (strip_heap [1, 2] ex_gold) (map VRef [1, 2])
     = Some [PDict [(''ID'', PInt 1)], PDict [(''ID'', PInt 2)]]"
    by (simp add: ex_gold_def strip_heap_def load_all_def heap_get_def numeral_2_eq_2 upt_rec)
  from handle_gold_product_xml_info_strips [OF a b c, of 2] a b c l show ?thesis by simp
qed

section \<open>The container decompressor\<close>

text \<open>
  C8: the decompressor drops the first seven bytes, three of signature and four of
  declared length, and hands all the rest to the inflater; two containers that differ
  only in their declared length give the same result, value or exception.
\<close>

theorem extract_configs_from_swf_header:
  assumes "length signature = 3" and "length declared1 = 4" and "length declared2 = 4"
  shows "extract_configs_from_swf E (signature @ declared1 @ body)
      = (case zlib_decompress E body of
           Inl e \<Rightarrow> Inl e
         | Inr decompressed \<Rightarrow>
             (case extract_swf_data E decompressed of
                Inl e \<Rightarrow> Inl e
              | Inr swf_data \<Rightarrow> extract_binary_data E swf_data))
    \<and> extract_configs_from_swf E (signature @ declared1 @ body)
      = extract_configs_from_swf E (signature @ declared2 @ body)"
  using assms by (simp add: extract_configs_from_swf_def)

theorem extract_configs_from_swf_header_witness:
  "length [0x43, 0x57, 0x53 :: byte] = 3 \<and> length [0, 0, 0, 9 :: byte] = 4
   \<and> length [0xFF, 0xFF, 0xFF, 0xFF :: byte] = 4
   \<and> extract_configs_from_swf ex_externals
        ([0x43, 0x57, 0x53] @ [0, 0, 0, 9] @ [0x78, 0xDA, 1, 2]) = Inr [(''seg'', [1, 2])]
   \<and> extract_configs_from_swf ex_externals
        ([0x43, 0x57, 0x53] @ [0xFF, 0xFF, 0xFF, 0xFF] @ [0x78, 0xDA, 1, 2]) = Inr [(''seg'', [1, 2])]"
proof -
  have a: "length [0x43, 0x57, 0x53 :: byte] = 3" by simp
  have b: "length [0, 0, 0, 9 :: byte] = 4" by simp
  have c: "length [0xFF, 0xFF, 0xFF, 0xFF :: byte] = 4" by simp
  have d: "zlib_decompress ex_externals [0x78, 0xDA, 1, 2] = Inr [1, 2]"
    "extract_swf_data ex_externals [1, 2] = Inr [1, 2]"
    "extract_binary_data ex_externals [1, 2] = Inr [(''seg'', [1, 2])]"
    by (simp_all add: ex_externals_def)
  from extract_configs_from_swf_header [OF a b c, of ex_externals "[0x78, 0xDA, 1, 2]"]
  show ?thesis by (auto simp: d)
qed


section \<open>Segments of the Flash container\<close>


















section \<open>Routing of segments\<close>




section \<open>What is written for a segment\<close>




section \<open>The update run\<close>

lemma get_remote_version_frame:
  "get_remote_version P s = (s1, r) \<Longrightarrow>
   version_file s1 = version_file s \<and> work_files s1 = work_files s"
  by (auto simp: get_remote_version_def)

lemma check_update_frame:
  "check_update P s = (s1, r) \<Longrightarrow>
   version_file s1 = version_file s \<and> work_files s1 = work_files s"
  by (auto simp: check_update_def get_remote_version_def split: sum.splits if_splits prod.splits)

lemma save_remote_version_frame:
  "save_remote_version P s = (s1, r) \<Longrightarrow>
   work_files s1 = work_files s
   \<and> (version_file s1 = version_file s
       \<or> (\<exists>k v. remote_version P k = Inr v \<and> version_file s1 = Some v))"
  by (auto simp: save_remote_version_def get_remote_version_def split: sum.splits prod.splits)

lemma update_platform_version:
  assumes "update_platform name P s commits = Some ((s', commits'), r)"
  shows "(version_file s' \<noteq> version_file s \<longrightarrow>
           (\<exists>w. get_configs P (work_files s) = Some (w, None))
           \<and> (\<exists>k v. remote_version P k = Inr v \<and> version_file s' = Some v))
       \<and> (\<forall>w e. get_configs P (work_files s) = Some (w, Some e) \<longrightarrow>
            version_file s' = version_file s \<and> commits' = commits)"
proof -
  obtain s1 r1 where g: "get_remote_version P s = (s1, r1)"
    by (cases "get_remote_version P s")
  note f1 = get_remote_version_frame [OF g]
  show ?thesis
  proof (cases r1)
    case (Inl e)
    with assms g f1 show ?thesis by (simp add: update_platform_def)
  next
    case (Inr v)
    obtain s2 r2 where c: "check_update P s1 = (s2, r2)" by (cases "check_update P s1")
    note f2 = check_update_frame [OF c]
    show ?thesis
    proof (cases r2)
      case (Inl e)
      with assms g Inr c f1 f2 show ?thesis by (simp add: update_platform_def)
    next
      case upd: (Inr update)
      show ?thesis
      proof (cases update)
        case False
        with assms g Inr c upd f1 f2 show ?thesis by (simp add: update_platform_def)
      next
        case True
        from f1 f2 have w: "work_files s2 = work_files s" and vf: "version_file s2 = version_file s"
          by simp_all
        show ?thesis
        proof (cases "get_configs P (work_files s)")
          case None
          with assms g Inr c upd True w show ?thesis by (simp add: update_platform_def)
        next
          case (Some a)
          obtain w' eo where a: "a = (w', eo)" by (cases a)
          show ?thesis
          proof (cases eo)
            case (Some e)
            with assms g Inr c upd True w \<open>get_configs P (work_files s) = Some a\<close> a vf
            show ?thesis by (auto simp: update_platform_def)
          next
            case None
            obtain s3 r3 where sv: "save_remote_version P (s2\<lparr>work_files := w'\<rparr>) = (s3, r3)"
              by (cases "save_remote_version P (s2\<lparr>work_files := w'\<rparr>)")
            from save_remote_version_frame [OF sv] vf
            have f3: "version_file s3 = version_file s
                \<or> (\<exists>k v. remote_version P k = Inr v \<and> version_file s3 = Some v)"
              by simp
            from assms g Inr c upd True w \<open>get_configs P (work_files s) = Some a\<close> a None sv
            have "s' = s3"
              by (auto simp: update_platform_def split: option.splits)
            with f3 \<open>get_configs P (work_files s) = Some a\<close> a None show ?thesis by auto
          qed
        qed
      qed
    qed
  qed
qed

lemma main_loop_length:
  "main_loop platforms commits = Some (states, commits', r) \<Longrightarrow> length states = length platforms"
proof (induction platforms arbitrary: commits states commits' r)
  case Nil
  then show ?case by simp
next
  case (Cons p ps)
  obtain name0 P0 s0 where p: "p = (name0, P0, s0)" by (cases p)
  from Cons.prems p obtain s1 commits1 r1
    where u: "update_platform name0 P0 s0 commits = Some ((s1, commits1), r1)"
    by (auto split: option.splits prod.splits)
  show ?case
  proof (cases r1)
    case (Some e)
    with Cons.prems p u show ?thesis by auto
  next
    case None
    with Cons.prems p u obtain ss commits2 r2
      where m: "main_loop ps commits1 = Some (ss, commits2, r2)" and st: "states = s1 # ss"
      by (auto split: option.splits prod.splits)
    from Cons.IH [OF m] st show ?thesis by simp
  qed
qed

text \<open>
  C6: for every platform of a run, the stored version differs after the run from the one
  before only if the platform's \<^verbatim>\<open>get_configs\<close> returned without an exception, and it is
  then a fetched remote version; if \<^verbatim>\<open>get_configs\<close> raises, the stored version is the
  one before.
\<close>

theorem main_loop_version_saved_after_get_configs:
  assumes "main_loop platforms commits = Some (states, commits', r)"
    and "i < length platforms"
    and "platforms ! i = (name, P, s)"
  shows "length states = length platforms
    \<and> (version_file (states ! i) \<noteq> version_file s \<longrightarrow>
          (\<exists>w. get_configs P (work_files s) = Some (w, None))
          \<and> (\<exists>k v. remote_version P k = Inr v \<and> version_file (states ! i) = Some v))
    \<and> (\<forall>w e. get_configs P (work_files s) = Some (w, Some e) \<longrightarrow>
          version_file (states ! i) = version_file s)"
proof -
  have "(version_file (states ! i) \<noteq> version_file s \<longrightarrow>
          (\<exists>w. get_configs P (work_files s) = Some (w, None))
          \<and> (\<exists>k v. remote_version P k = Inr v \<and> version_file (states ! i) = Some v))
    \<and> (\<forall>w e. get_configs P (work_files s) = Some (w, Some e) \<longrightarrow>
          version_file (states ! i) = version_file s)"
    using assms
  proof (induction platforms arbitrary: commits states commits' r i)
    case Nil
    then show ?case by simp
  next
    case (Cons p ps)
    obtain name0 P0 s0 where p: "p = (name0, P0, s0)" by (cases p)
    from Cons.prems(1) p obtain s1 commits1 r1
      where u: "update_platform name0 P0 s0 commits = Some ((s1, commits1), r1)"
      by (auto split: option.splits prod.splits)
    note uv = update_platform_version [OF u]
    show ?case
    proof (cases r1)
      case (Some e)
      with Cons.prems(1) p u have st: "states = s1 # map (\<lambda>r. snd (snd r)) ps" by simp
      show ?thesis
      proof (cases i)
        case 0
        with Cons.prems(3) p have "name = name0" "P = P0" "s = s0" by simp_all
        with st 0 uv show ?thesis by auto
      next
        case (Suc j)
        with Cons.prems(2,3) have "j < length ps" "ps ! j = (name, P, s)" by simp_all
        with st Suc show ?thesis by simp
      qed
    next
      case None
      with Cons.prems(1) p u obtain ss commits2 r2
        where m: "main_loop ps commits1 = Some (ss, commits2, r2)" and st: "states = s1 # ss"
        by (auto split: option.splits prod.splits)
      show ?thesis
      proof (cases i)
        case 0
        with Cons.prems(3) p have "name = name0" "P = P0" "s = s0" by simp_all
        with st 0 uv show ?thesis by auto
      next
        case (Suc j)
        with Cons.prems(2,3) have j: "j < length ps" "ps ! j = (name, P, s)" by simp_all
        from Cons.IH [OF m j] st Suc show ?thesis by simp
      qed
    qed
  qed
  with main_loop_length [OF assms(1)] show ?thesis by simp
qed

lemma main_loop_example:
  "main_loop [(''flash'', ex_platform_ok, ex_state), (''html5'', ex_platform_fail, ex_state),
      (''unity'', ex_platform_ok, ex_state)] []
   = Some ([\<lparr>version_file = Some [50], work_files = (), requests = 3\<rparr>,
            \<lparr>version_file = Some [49], work_files = (), requests = 2\<rparr>,
            ex_state],
           [(''flash'', [50])], Some ExternalError)"
  by (simp add: update_platform_def check_update_def get_remote_version_def get_local_version_def
      save_remote_version_def py_strip_def is_space_def ex_platform_ok_def ex_platform_fail_def
      ex_state_def)

theorem main_loop_version_saved_after_get_configs_witness:
  "main_loop [(''flash'', ex_platform_ok, ex_state), (''html5'', ex_platform_fail, ex_state),
      (''unity'', ex_platform_ok, ex_state)] []
   = Some ([\<lparr>version_file = Some [50], work_files = (), requests = 3\<rparr>,
            \<lparr>version_file = Some [49], work_files = (), requests = 2\<rparr>,
            ex_state],
           [(''flash'', [50])], Some ExternalError)
   \<and> version_file \<lparr>version_file = Some [50], work_files = (), requests = 3\<rparr>
       \<noteq> version_file ex_state
   \<and> get_configs ex_platform_ok (work_files ex_state) = Some ((), None)
   \<and> get_configs ex_platform_fail (work_files ex_state) = Some ((), Some ExternalError)
   \<and> version_file \<lparr>version_file = Some [49], work_files = (), requests = 2\<rparr>
       = version_file ex_state"
proof -
  note m = main_loop_example
  have i0: "(0::nat) < length [(''flash'', ex_platform_ok, ex_state),
      (''html5'', ex_platform_fail, ex_state), (''unity'', ex_platform_ok, ex_state)]"
    and i1: "(1::nat) < length [(''flash'', ex_platform_ok, ex_state),
      (''html5'', ex_platform_fail, ex_state), (''unity'', ex_platform_ok, ex_state)]"
    by simp_all
  have p0: "[(''flash'', ex_platform_ok, ex_state), (''html5'', ex_platform_fail, ex_state),
      (''unity'', ex_platform_ok, ex_state)] ! 0 = (''flash'', ex_platform_ok, ex_state)"
    and p1: "[(''flash'', ex_platform_ok, ex_state), (''html5'', ex_platform_fail, ex_state),
      (''unity'', ex_platform_ok, ex_state)] ! 1 = (''html5'', ex_platform_fail, ex_state)"
    by simp_all
  have g: "get_configs ex_platform_fail (work_files ex_state) = Some ((), Some ExternalError)"
    by (simp add: ex_platform_fail_def)
  from main_loop_version_saved_after_get_configs [OF m i0 p0]
    main_loop_version_saved_after_get_configs [OF m i1 p1] g m
  show ?thesis by (simp add: ex_state_def ex_platform_ok_def)
qed

end
